theory Spec2Isabelle
  imports Main "HOL-Library.AList"
begin

section \<open>Strings and dynamically typed values\<close>

text \<open>
  The page (\<^verbatim>\<open>src/app/page.tsx\<close>) handles JavaScript strings and one value of type
  \<^verbatim>\<open>any\<close>, the payload of a push event. A JavaScript string is a sequence of code
  units; here a \<open>string\<close> is read as the sequence of its code units below 256 (one
  \<open>char\<close> per code unit), and the two library functions the page calls on strings,
  \<^verbatim>\<open>trim\<close> and \<^verbatim>\<open>toLowerCase\<close>, are written out on that range.
\<close>

definition is_whitespace :: "char \<Rightarrow> bool" where
  \<comment> \<open>WhiteSpace and LineTerminator of ECMAScript below code unit 256:
      TAB, LF, VT, FF, CR, SP and NBSP.\<close>
  "is_whitespace c = (of_char c \<in> set [9, 10, 11, 12, 13, 32, 160 :: nat])"

definition trim :: "string \<Rightarrow> string" where
  \<comment> \<open>\<^verbatim>\<open>String.prototype.trim\<close>: the whitespace at both ends is removed.\<close>
  "trim s = rev (dropWhile is_whitespace (rev (dropWhile is_whitespace s)))"

definition lower_char :: "char \<Rightarrow> char" where
  \<comment> \<open>The lower-case mapping below code unit 256: A..Z, and the accented capitals
      0xC0..0xDE without the multiplication sign 0xD7, move up by 32.\<close>
  "lower_char c =
     (let n = (of_char c :: nat)
      in if (65 \<le> n \<and> n \<le> 90) \<or> (192 \<le> n \<and> n \<le> 222 \<and> n \<noteq> 215)
         then char_of (n + 32) else c)"

definition toLowerCase :: "string \<Rightarrow> string" where
  "toLowerCase s = map lower_char s"

datatype exn = TypeError | HubError string

datatype jsval =
    JUndefined
  | JNull
  | JBool bool
  | JNum int
  | JStr string
  | JArr "jsval list"
  | JObj "(string \<times> jsval) list"

text \<open>
  An object is the list of its own enumerable properties in property order; a property
  is read with \<open>map_of\<close>. Numbers are the integers: the page only tests a number for
  being zero.
\<close>

fun truthy :: "jsval \<Rightarrow> bool" where
  "truthy JUndefined = False"
| "truthy JNull = False"
| "truthy (JBool b) = b"
| "truthy (JNum n) = (n \<noteq> 0)"
| "truthy (JStr s) = (s \<noteq> [])"
| "truthy (JArr xs) = True"
| "truthy (JObj ps) = True"

fun get_data :: "jsval \<Rightarrow> exn + jsval" where
  \<comment> \<open>The member access \<^verbatim>\<open>response.data\<close>: a TypeError on \<^verbatim>\<open>undefined\<close> and
      \<^verbatim>\<open>null\<close>, \<^verbatim>\<open>undefined\<close> where there is no such property.\<close>
  "get_data JUndefined = Inl TypeError"
| "get_data JNull = Inl TypeError"
| "get_data (JObj ps) = Inr (case map_of ps ''data'' of None \<Rightarrow> JUndefined | Some v \<Rightarrow> v)"
| "get_data v = Inr JUndefined"

definition digit_char :: "nat \<Rightarrow> char" where
  "digit_char d = char_of (48 + d)"

fun show_nat :: "nat \<Rightarrow> string" where
  "show_nat n = (if n < 10 then [digit_char n] else show_nat (n div 10) @ [digit_char (n mod 10)])"

declare show_nat.simps [simp del]

fun spread :: "jsval \<Rightarrow> (string \<times> jsval) list" where
  \<comment> \<open>The properties that \<^verbatim>\<open>{...v}\<close> copies: those of an object, the indexed elements
      of an array, the indexed characters of a string, none of another primitive.\<close>
  "spread (JObj ps) = ps"
| "spread (JArr xs) = map (\<lambda>i. (show_nat i, xs ! i)) [0..<length xs]"
| "spread (JStr s) = map (\<lambda>i. (show_nat i, JStr [s ! i])) [0..<length s]"
| "spread v = []"

section \<open>Presentation mapping\<close>

datatype icon_component = CheckCircle | XCircle | AlertCircle

type_synonym icon = "icon_component \<times> string"

definition getStatusIcon :: "string \<Rightarrow> icon" where
  "getStatusIcon status =
     (let l = toLowerCase status
      in if l \<in> set [''completed'', ''success'', ''online'', ''running'', ''active'']
         then (CheckCircle, ''h-4 w-4 text-green-500'')
         else if l \<in> set [''error'', ''failed'', ''offline'', ''emergency'']
         then (XCircle, ''h-4 w-4 text-red-500'')
         else if l \<in> set [''warning'', ''idle'']
         then (AlertCircle, ''h-4 w-4 text-yellow-500'')
         else (AlertCircle, ''h-4 w-4 text-yellow-500''))"

definition getStatusColor :: "string \<Rightarrow> string" where
  "getStatusColor status =
     (let l = toLowerCase status
      in if l \<in> set [''completed'', ''success'', ''online'', ''running'', ''active'']
         then ''bg-green-100 text-green-800''
         else if l \<in> set [''error'', ''failed'', ''offline'', ''emergency'']
         then ''bg-red-100 text-red-800''
         else if l \<in> set [''processing'', ''warning'', ''inproduction'']
         then ''bg-blue-100 text-blue-800''
         else if l = ''idle''
         then ''bg-yellow-100 text-yellow-800''
         else ''bg-gray-100 text-gray-800'')"

section \<open>The page and its transport\<close>

text \<open>
  The component \<^verbatim>\<open>SignalRClient\<close> keeps six state variables and one ref. The hub
  connections it builds belong to the third-party client library; they are kept here in
  \<open>hub\<close>, one entry per connection object built so far, a connection handle being the
  index of its entry. \<open>alerts\<close> is what \<^verbatim>\<open>alert\<close> has shown the user and
  \<open>console\<close> what \<^verbatim>\<open>console.log\<close> and \<^verbatim>\<open>console.error\<close> have
  printed (the message without its leading pictograph and without the logged object).
  \<open>stopsPending\<close> counts the calls of \<^verbatim>\<open>disconnectFromHub\<close> that are suspended
  at their \<^verbatim>\<open>await\<close>.
\<close>

datatype status = Disconnected | Connecting | Connected

datatype phase = Built | Starting | Live | Reconnecting | Stopping | Closed

record transport =
  url :: string
  phase :: phase

type_synonym machine_log = "(string \<times> jsval) list"

datatype console_entry = Log string | Error string

record page =
  connection :: "nat option"
  isConnected :: bool
  userId :: string
  serverUrl :: string
  logs :: "machine_log list"
  connectionStatus :: status
  connectionRef :: "nat option"
  hub :: "transport list"
  alerts :: "string list"
  console :: "console_entry list"
  stopsPending :: nat

definition initial :: page where
  "initial =
     \<lparr>connection = None, isConnected = False, userId = [],
      serverUrl = ''https://mms-api-fbabadckhjdybmg7.westus2-01.azurewebsites.net/machineHub'',
      logs = [], connectionStatus = Disconnected, connectionRef = None,
      hub = [], alerts = [], console = [], stopsPending = 0\<rparr>"

definition alert :: "string \<Rightarrow> page \<Rightarrow> page" where
  "alert msg s = s\<lparr>alerts := alerts s @ [msg]\<rparr>"

definition console_log :: "string \<Rightarrow> page \<Rightarrow> page" where
  "console_log msg s = s\<lparr>console := console s @ [Log msg]\<rparr>"

definition console_error :: "string \<Rightarrow> page \<Rightarrow> page" where
  "console_error msg s = s\<lparr>console := console s @ [Error msg]\<rparr>"

subsection \<open>The calls into the client library\<close>

definition set_phase :: "nat \<Rightarrow> phase \<Rightarrow> page \<Rightarrow> page" where
  "set_phase c p s =
     (if c < length (hub s) then s\<lparr>hub := (hub s)[c := (hub s ! c)\<lparr>phase := p\<rparr>]\<rparr> else s)"

definition build :: "string \<Rightarrow> page \<Rightarrow> nat \<times> page" where
  \<comment> \<open>\<^verbatim>\<open>new HubConnectionBuilder().withUrl(u, ...).withAutomaticReconnect()
      .configureLogging(...).build()\<close>: one more connection object, not yet started.\<close>
  "build u s = (length (hub s), s\<lparr>hub := hub s @ [\<lparr>url = u, phase = Built\<rparr>]\<rparr>)"

definition start :: "nat \<Rightarrow> page \<Rightarrow> page" where
  \<comment> \<open>The call \<^verbatim>\<open>newConnection.start()\<close>: the handshake with the hub begins.\<close>
  "start c s = set_phase c Starting s"

definition stop :: "nat \<Rightarrow> page \<Rightarrow> page" where
  \<comment> \<open>The call \<^verbatim>\<open>connectionRef.current.stop()\<close>: the connection begins to close,
      unless it is closed already.\<close>
  "stop c s =
     (if c < length (hub s) \<and> phase (hub s ! c) \<noteq> Closed then set_phase c Stopping s else s)"

definition connected_transports :: "page \<Rightarrow> nat list" where
  \<comment> \<open>The handles of the connections whose handshake has succeeded and that have been
      neither stopped nor closed.\<close>
  "connected_transports s =
     filter (\<lambda>c. phase (hub s ! c) = Live \<or> phase (hub s ! c) = Reconnecting) [0..<length (hub s)]"

subsection \<open>connectToHub\<close>

text \<open>
  An \<^verbatim>\<open>async\<close> function runs up to its \<^verbatim>\<open>await\<close>, and its continuation runs
  when the awaited promise settles; other handlers may run in between. Each such
  function is therefore two functions: the part before the \<^verbatim>\<open>await\<close>, which
  returns the handle awaited on (\<open>None\<close> when it returned without awaiting), and the
  continuation, which takes the outcome of the awaited call.
\<close>

definition connectToHub :: "page \<Rightarrow> nat option \<times> page" where
  "connectToHub s =
     (if trim (userId s) = [] then (None, alert ''Please enter a valid User ID'' s)
      else
        let s1 = s\<lparr>connectionStatus := Connecting\<rparr>;
            (newConnection, s2) = build (serverUrl s @ ''?user_id='' @ userId s) s1
        in (Some newConnection, start newConnection s2))"

definition connectToHub_resume :: "nat \<Rightarrow> exn + unit \<Rightarrow> page \<Rightarrow> page" where
  "connectToHub_resume newConnection outcome s =
     (case outcome of
        Inr _ \<Rightarrow>
          (console_log ''Connected to SignalR hub'' s)
            \<lparr>connection := Some newConnection, isConnected := True,
             connectionStatus := Connected, connectionRef := Some newConnection\<rparr>
      | Inl error \<Rightarrow>
          alert ''Failed to connect to SignalR hub. Please check the server URL and try again.''
            ((console_error ''Error connecting to SignalR hub:'' s)
               \<lparr>connectionStatus := Disconnected\<rparr>))"

subsection \<open>The handlers registered on a connection\<close>

definition make_log :: "jsval \<Rightarrow> string \<Rightarrow> machine_log" where
  \<comment> \<open>\<^verbatim>\<open>{ ...response.data, timestamp: new Date().toISOString() }\<close>; \<open>now\<close> is the
      string the clock gives when the event arrives.\<close>
  "make_log d now = AList.update ''timestamp'' (JStr now) (spread d)"

definition onReceiveMachineUpdate :: "jsval \<Rightarrow> string \<Rightarrow> page \<Rightarrow> exn + page" where
  "onReceiveMachineUpdate response now s =
     (let s1 = console_log ''Received machine update:'' s
      in if truthy response then
           (case get_data response of
              Inl e \<Rightarrow> Inl e
            | Inr d \<Rightarrow>
                if truthy d
                then Inr (s1\<lparr>logs := make_log d now # take 49 (logs s1)\<rparr>)
                else Inr s1)
         else Inr s1)"




subsection \<open>disconnectFromHub and clearLogs\<close>

definition disconnectFromHub :: "page \<Rightarrow> nat option \<times> page" where
  "disconnectFromHub s =
     (case connectionRef s of
        None \<Rightarrow> (None, s)
      | Some c \<Rightarrow> (Some c, stop c s))"

definition disconnectFromHub_resume :: "exn + unit \<Rightarrow> page \<Rightarrow> page" where
  \<comment> \<open>The rest of the \<^verbatim>\<open>try\<close> block or the \<^verbatim>\<open>catch\<close> block, then the
      \<^verbatim>\<open>finally\<close> block.\<close>
  "disconnectFromHub_resume outcome s =
     (let s1 = (case outcome of
                  Inr _ \<Rightarrow> console_log ''Disconnected from SignalR hub'' s
                | Inl error \<Rightarrow> console_error ''Error disconnecting:'' s)
      in s1\<lparr>connection := None, isConnected := False,
             connectionStatus := Disconnected, connectionRef := None\<rparr>)"

definition clearLogs :: "page \<Rightarrow> page" where
  "clearLogs s = s\<lparr>logs := []\<rparr>"

subsection \<open>Events\<close>

text \<open>
  What may happen to the page, one event at a time (the page runs each handler to
  completion before the next). The user's actions are subject to the conditions in the markup: both
  inputs carry \<^verbatim>\<open>disabled={isConnected}\<close>; the Connect button is rendered when
  \<^verbatim>\<open>!isConnected\<close> and carries \<^verbatim>\<open>disabled={connectionStatus === "connecting"}\<close>;
  the Disconnect button is rendered when \<^verbatim>\<open>isConnected\<close>; the Clear button when
  \<^verbatim>\<open>logs.length > 0\<close>. The library's events follow the life of a connection:
  a pending \<^verbatim>\<open>start()\<close> settles once, a live connection may be lost and restored or
  closed, and a pending \<^verbatim>\<open>stop()\<close> settles.
\<close>

definition settle_start :: "nat \<Rightarrow> exn + unit \<Rightarrow> page \<Rightarrow> page" where
  \<comment> \<open>The promise of \<^verbatim>\<open>newConnection.start()\<close> settles and the continuation of
      \<^verbatim>\<open>connectToHub\<close> runs.\<close>
  "settle_start c outcome s =
     (if c < length (hub s) \<and> phase (hub s ! c) = Starting
      then connectToHub_resume c outcome
             (set_phase c (case outcome of Inr _ \<Rightarrow> Live | Inl _ \<Rightarrow> Closed) s)
      else s)"

definition disconnect_complete :: "exn + unit \<Rightarrow> page \<Rightarrow> page" where
  \<comment> \<open>A call of \<^verbatim>\<open>disconnectFromHub\<close> run to its end with nothing in between,
      \<open>outcome\<close> being what \<^verbatim>\<open>stop()\<close> gives.\<close>
  "disconnect_complete outcome s =
     (case disconnectFromHub s of
        (None, s') \<Rightarrow> s'
      | (Some c, s') \<Rightarrow> disconnectFromHub_resume outcome s')"





fun deliver :: "(jsval \<times> string) list \<Rightarrow> page \<Rightarrow> exn + page" where
  \<comment> \<open>The update handler called on a sequence of push events, each with the clock's
      string at its arrival; an exception of the handler would end the sequence.\<close>
  "deliver [] s = Inr s"
| "deliver ((response, now) # evs) s =
     (case onReceiveMachineUpdate response now s of
        Inl e \<Rightarrow> Inl e
      | Inr s' \<Rightarrow> deliver evs s')"

definition accepted :: "jsval \<times> string \<Rightarrow> bool" where
  \<comment> \<open>The push events that carry the data envelope, as the handler tests it.\<close>
  "accepted ev = (truthy (fst ev) \<and> (case get_data (fst ev) of Inr d \<Rightarrow> truthy d | Inl e \<Rightarrow> False))"

definition record_of :: "jsval \<times> string \<Rightarrow> machine_log" where
  \<comment> \<open>The record the handler makes of an accepted push event.\<close>
  "record_of ev = make_log (case get_data (fst ev) of Inr d \<Rightarrow> d | Inl e \<Rightarrow> JUndefined) (snd ev)"

definition arrivals :: "(jsval \<times> string) list \<Rightarrow> nat list" where
  \<comment> \<open>The positions, in a sequence of push events, of the accepted events that a buffer
      empty before the sequence holds after it: the latest fifty, the latest first.\<close>
  "arrivals evs = take 50 (rev (filter (\<lambda>k. accepted (evs ! k)) [0..<length evs]))"


definition connected_page :: page where
  \<comment> \<open>The page after the user \<open>u1\<close> has connected: one connection, its handshake done.\<close>
  "connected_page = settle_start 0 (Inr ()) (snd (connectToHub (initial\<lparr>userId := ''u1''\<rparr>)))"



section \<open>Presentation mapping: properties\<close>

lemma lower_emergency: "toLowerCase ''Emergency'' = ''emergency''" by code_simp
lemma lower_inproduction: "toLowerCase ''InProduction'' = ''inproduction''" by code_simp
lemma lower_idle: "toLowerCase ''idle'' = ''idle''" by code_simp
lemma lower_warning: "toLowerCase ''warning'' = ''warning''" by code_simp
lemma lower_online: "toLowerCase ''online'' = ''online''" by code_simp
lemma lower_error: "toLowerCase ''error'' = ''error''" by code_simp

text \<open>
  Claim C9. The icon and the styling of a status depend on the status only through its
  lower-case form, so statuses that differ in case are mapped alike. A status whose
  lower-case form is in none of the three vocabularies of \<open>getStatusIcon\<close> gets the
  default icon, which is the yellow alert icon of \<open>idle\<close> and \<open>warning\<close> and no
  icon of its own. \<open>Emergency\<close> gets the red failure icon, and \<open>InProduction\<close>
  the blue styling, which is neither the green styling of a success nor the red one of a
  failure.
\<close>

theorem status_mapping:
  "(toLowerCase a = toLowerCase b \<longrightarrow>
      getStatusIcon a = getStatusIcon b \<and> getStatusColor a = getStatusColor b)
   \<and> (toLowerCase status \<notin> set [''completed'', ''success'', ''online'', ''running'', ''active'']
        \<union> set [''error'', ''failed'', ''offline'', ''emergency'']
        \<union> set [''warning'', ''idle'']
      \<longrightarrow> getStatusIcon status = (AlertCircle, ''h-4 w-4 text-yellow-500''))
   \<and> getStatusIcon ''idle'' = (AlertCircle, ''h-4 w-4 text-yellow-500'')
   \<and> getStatusIcon ''warning'' = (AlertCircle, ''h-4 w-4 text-yellow-500'')
   \<and> getStatusIcon ''Emergency'' = (XCircle, ''h-4 w-4 text-red-500'')
   \<and> getStatusColor ''InProduction'' = ''bg-blue-100 text-blue-800''
   \<and> getStatusColor ''InProduction'' \<noteq> getStatusColor ''online''
   \<and> getStatusColor ''InProduction'' \<noteq> getStatusColor ''error''
   \<and> getStatusColor ''online'' = ''bg-green-100 text-green-800''
   \<and> getStatusColor ''error'' = ''bg-red-100 text-red-800''"
proof -
  have 1: "toLowerCase a = toLowerCase b \<longrightarrow>
      getStatusIcon a = getStatusIcon b \<and> getStatusColor a = getStatusColor b"
    by (simp add: getStatusIcon_def getStatusColor_def)
  have 2: "toLowerCase status \<notin> set [''completed'', ''success'', ''online'', ''running'', ''active'']
        \<union> set [''error'', ''failed'', ''offline'', ''emergency'']
        \<union> set [''warning'', ''idle'']
      \<longrightarrow> getStatusIcon status = (AlertCircle, ''h-4 w-4 text-yellow-500'')"
    by (simp add: getStatusIcon_def)
  have 3: "getStatusIcon ''idle'' = (AlertCircle, ''h-4 w-4 text-yellow-500'')"
    by (simp add: getStatusIcon_def lower_idle)
  have 4: "getStatusIcon ''warning'' = (AlertCircle, ''h-4 w-4 text-yellow-500'')"
    by (simp add: getStatusIcon_def lower_warning)
  have 5: "getStatusIcon ''Emergency'' = (XCircle, ''h-4 w-4 text-red-500'')"
    by (simp add: getStatusIcon_def lower_emergency)
  have 6: "getStatusColor ''InProduction'' = ''bg-blue-100 text-blue-800''"
    by (simp add: getStatusColor_def lower_inproduction)
  have 7: "getStatusColor ''online'' = ''bg-green-100 text-green-800''"
    by (simp add: getStatusColor_def lower_online)
  have 8: "getStatusColor ''error'' = ''bg-red-100 text-red-800''"
    by (simp add: getStatusColor_def lower_error)
  show ?thesis
    unfolding 3 4 5 6 7 8 using 1 2 by simp
qed

theorem status_mapping_witness:
  "toLowerCase ''EMERGENCY'' = toLowerCase ''emergency''
   \<and> getStatusIcon ''EMERGENCY'' = getStatusIcon ''emergency''
   \<and> toLowerCase ''InProduction'' \<notin> set [''completed'', ''success'', ''online'', ''running'', ''active'']
        \<union> set [''error'', ''failed'', ''offline'', ''emergency'']
        \<union> set [''warning'', ''idle'']
   \<and> getStatusIcon ''InProduction'' = (AlertCircle, ''h-4 w-4 text-yellow-500'')"
proof -
  have h1: "toLowerCase ''EMERGENCY'' = toLowerCase ''emergency''" by code_simp
  have h2: "toLowerCase ''InProduction'' \<notin> set [''completed'', ''success'', ''online'', ''running'', ''active'']
        \<union> set [''error'', ''failed'', ''offline'', ''emergency'']
        \<union> set [''warning'', ''idle'']"
    by (simp add: lower_inproduction)
  from status_mapping [of "''EMERGENCY''" "''emergency''" "''InProduction''"] h1 h2
  show ?thesis by blast
qed

section \<open>The log buffer\<close>

lemma take_Suc_49: "take 50 (x # xs) = x # take 49 xs"
  by (simp add: take_Cons')

lemma take_append_take: "take n (xs @ take n ys) = take n (xs @ ys)"
  by (simp add: min_def)

lemma handler_logs:
  "\<exists>s1. onReceiveMachineUpdate response now s = Inr s1
      \<and> logs s1 = (if accepted (response, now)
                   then record_of (response, now) # take 49 (logs s) else logs s)"
  by (cases response)
     (simp_all add: onReceiveMachineUpdate_def Let_def accepted_def record_of_def console_log_def)

lemma deliver_logs:
  "\<exists>s'. deliver evs s = Inr s'
      \<and> logs s' = (if filter accepted evs = [] then logs s
                   else take 50 (rev (map record_of (filter accepted evs)) @ logs s))"
proof (induction evs arbitrary: s)
  case Nil
  show ?case by simp
next
  case (Cons ev evs)
  obtain response now where ev: "ev = (response, now)" by (cases ev)
  obtain s1 where s1: "onReceiveMachineUpdate response now s = Inr s1"
    and l1: "logs s1 = (if accepted ev then record_of ev # take 49 (logs s) else logs s)"
    using handler_logs [of response now s] ev by auto
  obtain s' where s': "deliver evs s1 = Inr s'"
    and l': "logs s' = (if filter accepted evs = [] then logs s1
                   else take 50 (rev (map record_of (filter accepted evs)) @ logs s1))"
    using Cons.IH [of s1] by auto
  have d: "deliver (ev # evs) s = Inr s'"
    using ev s1 s' by simp
  show ?case
  proof (cases "accepted ev")
    case False
    with d l1 l' show ?thesis by simp
  next
    case True
    show ?thesis
    proof (cases "filter accepted evs = []")
      case True
      with \<open>accepted ev\<close> d l1 l' show ?thesis by simp
    next
      case False
      have "logs s' = take 50 (rev (map record_of (filter accepted evs)) @ take 50 (record_of ev # logs s))"
        using False l' l1 \<open>accepted ev\<close> by simp
      also have "\<dots> = take 50 (rev (map record_of (filter accepted evs)) @ record_of ev # logs s)"
        by (rule take_append_take)
      finally show ?thesis using d \<open>accepted ev\<close> by simp
    qed
  qed
qed

lemma records_by_position:
  "map record_of (filter accepted evs)
     = map (\<lambda>k. record_of (evs ! k)) (filter (\<lambda>k. accepted (evs ! k)) [0..<length evs])"
proof -
  have "filter accepted evs = filter accepted (map ((!) evs) [0..<length evs])"
    by (simp add: map_nth)
  also have "\<dots> = map ((!) evs) (filter (\<lambda>k. accepted (evs ! k)) [0..<length evs])"
    by (simp add: filter_map comp_def)
  finally show ?thesis by (simp add: comp_def)
qed

lemma logs_by_arrival:
  assumes "deliver evs s = Inr s'" and "logs s = []"
  shows "logs s' = map (\<lambda>k. record_of (evs ! k)) (arrivals evs)"
proof -
  from deliver_logs [of evs s] assms
  have "logs s' = take 50 (rev (map record_of (filter accepted evs)))"
    by auto
  then show ?thesis
    by (simp add: records_by_position arrivals_def rev_map take_map)
qed

lemma arrivals_decreasing: "sorted_wrt (>) (arrivals evs)"
proof -
  have "sorted_wrt (<) (filter (\<lambda>k. accepted (evs ! k)) [0..<length evs])"
    by (rule sorted_wrt_filter) simp
  then have "sorted_wrt (>) (rev (filter (\<lambda>k. accepted (evs ! k)) [0..<length evs]))"
    by (simp add: sorted_wrt_rev)
  then show ?thesis
    unfolding arrivals_def by (rule sorted_wrt_take)
qed

lemma arrivals_accepted: "k \<in> set (arrivals evs) \<Longrightarrow> k < length evs \<and> accepted (evs ! k)"
  unfolding arrivals_def by (auto dest!: in_set_takeD)

lemma deliver_bounded:
  assumes "deliver evs s = Inr s'" and "length (logs s) \<le> 50"
  shows "length (logs s') \<le> 50"
  using deliver_logs [of evs s] assms by (auto split: if_splits)

text \<open>
  Claim C1. Whatever sequence of push events the update handler receives, it returns on
  each of them, and a buffer of at most 50 records has at most 50 records afterwards.
  Started on an empty buffer, the buffer afterwards holds, at each index \<open>i\<close>, the
  record of the event that arrived at position \<open>arrivals evs ! i\<close> of the sequence,
  and these positions strictly decrease along the buffer: each record arrived later than
  the one after it. An accepted event that arrives when the buffer holds 50 records
  puts its record in front and drops the last, the oldest, record.
\<close>

theorem log_buffer_bounded_newest_first:
  "\<exists>s'. deliver evs s = Inr s'
      \<and> (length (logs s) \<le> 50 \<longrightarrow> length (logs s') \<le> 50)
      \<and> (logs s = [] \<longrightarrow>
            length (logs s') = length (arrivals evs)
          \<and> (\<forall>i. i < length (logs s') \<longrightarrow>
                 arrivals evs ! i < length evs
               \<and> logs s' ! i = record_of (evs ! (arrivals evs ! i)))
          \<and> (\<forall>i. Suc i < length (logs s') \<longrightarrow> arrivals evs ! Suc i < arrivals evs ! i))
      \<and> (length (logs t) = 50 \<and> accepted (response, now) \<longrightarrow>
            (\<exists>t'. onReceiveMachineUpdate response now t = Inr t'
                \<and> logs t' = record_of (response, now) # butlast (logs t)
                \<and> length (logs t') = 50))"
proof -
  obtain s' where d: "deliver evs s = Inr s'"
    using deliver_logs [of evs s] by blast
  have bound: "length (logs s) \<le> 50 \<longrightarrow> length (logs s') \<le> 50"
    using deliver_bounded [OF d] by blast
  have order: "logs s = [] \<longrightarrow>
            length (logs s') = length (arrivals evs)
          \<and> (\<forall>i. i < length (logs s') \<longrightarrow>
                 arrivals evs ! i < length evs
               \<and> logs s' ! i = record_of (evs ! (arrivals evs ! i)))
          \<and> (\<forall>i. Suc i < length (logs s') \<longrightarrow> arrivals evs ! Suc i < arrivals evs ! i)"
  proof
    assume e: "logs s = []"
    have l: "logs s' = map (\<lambda>k. record_of (evs ! k)) (arrivals evs)"
      by (rule logs_by_arrival [OF d e])
    have len: "length (logs s') = length (arrivals evs)"
      by (simp add: l)
    have pos: "\<forall>i. i < length (logs s') \<longrightarrow>
                 arrivals evs ! i < length evs
               \<and> logs s' ! i = record_of (evs ! (arrivals evs ! i))"
      using arrivals_accepted [of _ evs] by (simp add: l)
    have dec: "\<forall>i. Suc i < length (logs s') \<longrightarrow> arrivals evs ! Suc i < arrivals evs ! i"
      using arrivals_decreasing [of evs] by (simp add: len sorted_wrt_iff_nth_less)
    from len pos dec
    show "length (logs s') = length (arrivals evs)
          \<and> (\<forall>i. i < length (logs s') \<longrightarrow>
                 arrivals evs ! i < length evs
               \<and> logs s' ! i = record_of (evs ! (arrivals evs ! i)))
          \<and> (\<forall>i. Suc i < length (logs s') \<longrightarrow> arrivals evs ! Suc i < arrivals evs ! i)"
      by blast
  qed
  have evict: "length (logs t) = 50 \<and> accepted (response, now) \<longrightarrow>
            (\<exists>t'. onReceiveMachineUpdate response now t = Inr t'
                \<and> logs t' = record_of (response, now) # butlast (logs t)
                \<and> length (logs t') = 50)"
  proof
    assume a: "length (logs t) = 50 \<and> accepted (response, now)"
    then have "take 49 (logs t) = butlast (logs t)"
      by (simp add: butlast_conv_take)
    with a handler_logs [of response now t] show "\<exists>t'. onReceiveMachineUpdate response now t = Inr t'
                \<and> logs t' = record_of (response, now) # butlast (logs t)
                \<and> length (logs t') = 50"
      by auto
  qed
  from d bound order evict show ?thesis by blast
qed

theorem log_buffer_bounded_newest_first_witness:
  "length (logs initial) \<le> 50 \<and> logs initial = []
   \<and> length (logs (initial\<lparr>logs := replicate 50 [(''id'', JStr ''m0'')]\<rparr>)) = 50
   \<and> accepted (JObj [(''data'', JObj [(''id'', JStr ''3'')])], ''t4'')
   \<and> (\<exists>s'. deliver [(JObj [(''data'', JObj [(''id'', JStr ''1'')])], ''t1''),
                     (JNull, ''t2''),
                     (JObj [(''data'', JObj [(''id'', JStr ''2'')])], ''t3'')] initial = Inr s'
          \<and> length (logs s') = 2
          \<and> logs s' ! 0 = [(''id'', JStr ''2''), (''timestamp'', JStr ''t3'')]
          \<and> logs s' ! 1 = [(''id'', JStr ''1''), (''timestamp'', JStr ''t1'')])
   \<and> (\<exists>t'. onReceiveMachineUpdate (JObj [(''data'', JObj [(''id'', JStr ''3'')])]) ''t4''
               (initial\<lparr>logs := replicate 50 [(''id'', JStr ''m0'')]\<rparr>) = Inr t'
          \<and> logs t' = [(''id'', JStr ''3''), (''timestamp'', JStr ''t4'')]
                        # replicate 49 [(''id'', JStr ''m0'')])"
proof -
  let ?evs = "[(JObj [(''data'', JObj [(''id'', JStr ''1'')])], ''t1''),
               (JNull, ''t2''),
               (JObj [(''data'', JObj [(''id'', JStr ''2'')])], ''t3'')]"
  let ?t = "initial\<lparr>logs := replicate 50 [(''id'', JStr ''m0'')]\<rparr>"
  let ?r = "JObj [(''data'', JObj [(''id'', JStr ''3'')])]"
  have h1: "length (logs initial) \<le> 50" and h2: "logs initial = []"
    by (simp_all add: initial_def)
  have h3: "length (logs ?t) = 50" by simp
  have h4: "accepted (?r, ''t4'')" by (simp add: accepted_def)
  have a: "arrivals ?evs = [2, 0]"
    by (simp add: arrivals_def accepted_def upt_rec)
  have r0: "record_of (?evs ! 0) = [(''id'', JStr ''1''), (''timestamp'', JStr ''t1'')]"
    and r2: "record_of (?evs ! 2) = [(''id'', JStr ''2''), (''timestamp'', JStr ''t3'')]"
    and r3: "record_of (?r, ''t4'') = [(''id'', JStr ''3''), (''timestamp'', JStr ''t4'')]"
    by (simp_all add: record_of_def make_log_def)
  have b: "butlast (logs ?t) = replicate 49 [(''id'', JStr ''m0'')]"
    by (simp add: butlast_conv_take)
  from log_buffer_bounded_newest_first [of ?evs initial ?t ?r "''t4''"] h1 h2 h3 h4
  obtain s' t' where d: "deliver ?evs initial = Inr s'"
    and len: "length (logs s') = length (arrivals ?evs)"
    and pos: "\<forall>i. i < length (logs s') \<longrightarrow> logs s' ! i = record_of (?evs ! (arrivals ?evs ! i))"
    and t': "onReceiveMachineUpdate ?r ''t4'' ?t = Inr t'"
    and lt: "logs t' = record_of (?r, ''t4'') # butlast (logs ?t)"
    by blast
  from len a have len2: "length (logs s') = 2" by simp
  from pos len2 a have p0: "logs s' ! 0 = record_of (?evs ! 2)"
    and p1: "logs s' ! 1 = record_of (?evs ! 0)"
    by simp_all
  from h1 h2 h3 h4 d len2 p0 p1 t' lt show ?thesis
    unfolding r0 r2 r3 b by blast
qed

text \<open>
  Claim C5. A push event whose payload is \<^verbatim>\<open>undefined\<close> or \<^verbatim>\<open>null\<close>, or whose
  \<^verbatim>\<open>data\<close> property is, is dropped: the handler returns without an exception, and
  the page is as before but for the line on the console; the buffer is unchanged.
\<close>

theorem missing_envelope_dropped:
  assumes "response = JUndefined \<or> response = JNull
           \<or> get_data response = Inr JUndefined \<or> get_data response = Inr JNull"
  shows "onReceiveMachineUpdate response now s
           = Inr (s\<lparr>console := console s @ [Log ''Received machine update:'']\<rparr>)
         \<and> logs (s\<lparr>console := console s @ [Log ''Received machine update:'']\<rparr>) = logs s"
  using assms
  by (auto simp add: onReceiveMachineUpdate_def Let_def console_log_def)

theorem missing_envelope_dropped_witness:
  "get_data (JObj [(''id'', JStr ''m1'')]) = Inr JUndefined
   \<and> onReceiveMachineUpdate (JObj [(''id'', JStr ''m1'')]) ''t1'' (initial\<lparr>logs := [[(''id'', JStr ''m0'')]]\<rparr>)
       = Inr (initial\<lparr>logs := [[(''id'', JStr ''m0'')]], console := [Log ''Received machine update:'']\<rparr>)"
proof -
  have h: "get_data (JObj [(''id'', JStr ''m1'')]) = Inr JUndefined" by simp
  from missing_envelope_dropped [OF disjI2 [OF disjI2 [OF disjI1 [OF h]]], of "''t1''" "initial\<lparr>logs := [[(''id'', JStr ''m0'')]]\<rparr>"] h
  show ?thesis by (simp add: initial_def)
qed

text \<open>
  Claim C6. For a push event whose payload is an object with a \<^verbatim>\<open>data\<close> object,
  the handler returns, and the new buffer is the new record followed by the first 49
  records of the old buffer, which is the old buffer with the record in front, cut to 50.
  The record has the string of the arrival time as its \<^verbatim>\<open>timestamp\<close>, whether or
  not the payload had one, and every other property as the \<^verbatim>\<open>data\<close> object has it.
\<close>

theorem update_prepended_stamped:
  assumes "response = JObj ps" and "map_of ps ''data'' = Some (JObj props)"
  shows "\<exists>s'. onReceiveMachineUpdate response now s = Inr s'
           \<and> logs s' = make_log (JObj props) now # take 49 (logs s)
           \<and> logs s' = take 50 (make_log (JObj props) now # logs s)
           \<and> map_of (make_log (JObj props) now) ''timestamp'' = Some (JStr now)
           \<and> (\<forall>k. k \<noteq> ''timestamp'' \<longrightarrow> map_of (make_log (JObj props) now) k = map_of props k)"
proof -
  have "onReceiveMachineUpdate response now s
          = Inr ((console_log ''Received machine update:'' s)
                   \<lparr>logs := make_log (JObj props) now # take 49 (logs s)\<rparr>)"
    using assms by (simp add: onReceiveMachineUpdate_def Let_def console_log_def)
  moreover have "map_of (make_log (JObj props) now) = (map_of props)(''timestamp'' \<mapsto> JStr now)"
    by (simp add: make_log_def update_conv')
  ultimately show ?thesis
    by (simp add: take_Suc_49)
qed

theorem update_prepended_stamped_witness:
  "map_of [(''data'', JObj [(''id'', JStr ''m1''), (''timestamp'', JStr ''old''), (''status'', JStr ''Online'')])]
      ''data'' = Some (JObj [(''id'', JStr ''m1''), (''timestamp'', JStr ''old''), (''status'', JStr ''Online'')])
   \<and> (\<exists>s'. onReceiveMachineUpdate
              (JObj [(''data'', JObj [(''id'', JStr ''m1''), (''timestamp'', JStr ''old''), (''status'', JStr ''Online'')])])
              ''2025-01-01T00:00:00.000Z'' initial = Inr s'
           \<and> logs s' = [[(''id'', JStr ''m1''), (''timestamp'', JStr ''2025-01-01T00:00:00.000Z''), (''status'', JStr ''Online'')]])"
proof -
  have h: "map_of [(''data'', JObj [(''id'', JStr ''m1''), (''timestamp'', JStr ''old''), (''status'', JStr ''Online'')])]
      ''data'' = Some (JObj [(''id'', JStr ''m1''), (''timestamp'', JStr ''old''), (''status'', JStr ''Online'')])"
    by simp
  from update_prepended_stamped [OF refl h, of "''2025-01-01T00:00:00.000Z''" initial]
  obtain s' where "onReceiveMachineUpdate
              (JObj [(''data'', JObj [(''id'', JStr ''m1''), (''timestamp'', JStr ''old''), (''status'', JStr ''Online'')])])
              ''2025-01-01T00:00:00.000Z'' initial = Inr s'"
    and "logs s' = make_log (JObj [(''id'', JStr ''m1''), (''timestamp'', JStr ''old''), (''status'', JStr ''Online'')]) ''2025-01-01T00:00:00.000Z'' # take 49 (logs initial)"
    by blast
  then show ?thesis using h
    by (simp add: make_log_def initial_def)
qed

text \<open>
  Claim C10. \<open>clearLogs\<close> empties the buffer, whatever it held, and changes nothing
  else: not the connection status, the connection handles, the server URL or the user
  id, nor the hub connections, the alerts or the console.
\<close>

theorem clearLogs_frame:
  "clearLogs s = s\<lparr>logs := []\<rparr>
   \<and> length (logs (clearLogs s)) = 0
   \<and> connectionStatus (clearLogs s) = connectionStatus s
   \<and> isConnected (clearLogs s) = isConnected s
   \<and> connection (clearLogs s) = connection s
   \<and> connectionRef (clearLogs s) = connectionRef s
   \<and> serverUrl (clearLogs s) = serverUrl s
   \<and> userId (clearLogs s) = userId s
   \<and> hub (clearLogs s) = hub s
   \<and> alerts (clearLogs s) = alerts s
   \<and> console (clearLogs s) = console s"
  by (simp add: clearLogs_def)

section \<open>Connecting and disconnecting\<close>

lemma trim_empty_iff: "trim u = [] \<longleftrightarrow> (\<forall>c\<in>set u. is_whitespace c)"
proof -
  have "trim u = [] \<longleftrightarrow> (\<forall>c\<in>set (dropWhile is_whitespace u). is_whitespace c)"
    by (simp add: trim_def dropWhile_eq_Nil_conv)
  also have "\<dots> \<longleftrightarrow> dropWhile is_whitespace u = []"
  proof (cases "dropWhile is_whitespace u")
    case Nil
    show ?thesis unfolding Nil by simp
  next
    case (Cons x xs)
    then have "\<not> is_whitespace x"
      by (metis hd_dropWhile list.distinct(1) list.sel(1))
    with Cons show ?thesis by auto
  qed
  also have "\<dots> \<longleftrightarrow> (\<forall>c\<in>set u. is_whitespace c)"
    by (simp add: dropWhile_eq_Nil_conv)
  finally show ?thesis .
qed

text \<open>
  Claim C4. When the user id is empty or has whitespace only, \<open>connectToHub\<close> shows
  the alert and returns at once: the connection status and the handles are unchanged,
  and no connection is built or started, the hub connections being those of before.
\<close>

theorem blank_identity_rejected:
  assumes "\<forall>c\<in>set (userId s). is_whitespace c"
  shows "connectToHub s = (None, s\<lparr>alerts := alerts s @ [''Please enter a valid User ID'']\<rparr>)
         \<and> connectionStatus (snd (connectToHub s)) = connectionStatus s
         \<and> isConnected (snd (connectToHub s)) = isConnected s
         \<and> hub (snd (connectToHub s)) = hub s
         \<and> connection (snd (connectToHub s)) = connection s
         \<and> connectionRef (snd (connectToHub s)) = connectionRef s"
proof -
  from assms have "trim (userId s) = []" by (simp add: trim_empty_iff)
  then show ?thesis by (simp add: connectToHub_def alert_def)
qed

theorem blank_identity_rejected_witness:
  "is_whitespace (CHR '' '') \<and> is_whitespace (CHR 0x09) \<and> is_whitespace (CHR 0xA0)
   \<and> connectToHub (initial\<lparr>userId := [CHR '' '', CHR 0x09, CHR 0xA0]\<rparr>)
       = (None, initial\<lparr>userId := [CHR '' '', CHR 0x09, CHR 0xA0],
                        alerts := [''Please enter a valid User ID'']\<rparr>)"
proof -
  have h: "\<forall>c\<in>set (userId (initial\<lparr>userId := [CHR '' '', CHR 0x09, CHR 0xA0]\<rparr>)). is_whitespace c"
    by (simp add: is_whitespace_def)
  from blank_identity_rejected [OF h] h show ?thesis
    by (simp add: initial_def is_whitespace_def)
qed

lemma trim_u1: "trim ''u1'' = ''u1''"
  by (simp add: trim_def is_whitespace_def)

lemma connectToHub_proceeds:
  assumes "trim (userId s) \<noteq> []"
  shows "connectToHub s =
           (Some (length (hub s)),
            s\<lparr>connectionStatus := Connecting,
              hub := hub s @ [\<lparr>url = serverUrl s @ ''?user_id='' @ userId s, phase = Starting\<rparr>]\<rparr>)"
  using assms
  by (simp add: connectToHub_def build_def start_def set_phase_def Let_def)

lemma connected_transports_append:
  "connected_transports (s\<lparr>hub := hub s @ [t]\<rparr>) =
     connected_transports s @ (if phase t = Live \<or> phase t = Reconnecting then [length (hub s)] else [])"
proof -
  have "filter (\<lambda>c. phase ((hub s @ [t]) ! c) = Live \<or> phase ((hub s @ [t]) ! c) = Reconnecting) [0..<length (hub s)]
        = filter (\<lambda>c. phase (hub s ! c) = Live \<or> phase (hub s ! c) = Reconnecting) [0..<length (hub s)]"
    by (rule filter_cong) (simp_all add: nth_append)
  then show ?thesis
    by (simp add: connected_transports_def)
qed

lemma connect_then_failure:
  assumes "trim (userId s) \<noteq> []"
  shows "\<exists>s1. connectToHub s = (Some (length (hub s)), s1)
           \<and> phase (hub s1 ! length (hub s)) = Starting
           \<and> connectionStatus (settle_start (length (hub s)) (Inl e) s1) = Disconnected
           \<and> alerts (settle_start (length (hub s)) (Inl e) s1)
               = alerts s @ [''Failed to connect to SignalR hub. Please check the server URL and try again.'']
           \<and> connection (settle_start (length (hub s)) (Inl e) s1) = connection s
           \<and> connectionRef (settle_start (length (hub s)) (Inl e) s1) = connectionRef s
           \<and> isConnected (settle_start (length (hub s)) (Inl e) s1) = isConnected s
           \<and> hub (settle_start (length (hub s)) (Inl e) s1)
               = hub s @ [\<lparr>url = serverUrl s @ ''?user_id='' @ userId s, phase = Closed\<rparr>]
           \<and> connected_transports (settle_start (length (hub s)) (Inl e) s1) = connected_transports s"
proof -
  define c where "c = length (hub s)"
  define closed where "closed = \<lparr>url = serverUrl s @ ''?user_id='' @ userId s, phase = Closed\<rparr>"
  define s1 where "s1 = s\<lparr>connectionStatus := Connecting,
              hub := hub s @ [\<lparr>url = serverUrl s @ ''?user_id='' @ userId s, phase = Starting\<rparr>]\<rparr>"
  define s2 where "s2 = settle_start c (Inl e) s1"
  have a: "connectToHub s = (Some c, s1)"
    unfolding c_def s1_def by (rule connectToHub_proceeds [OF assms])
  have p: "phase (hub s1 ! c) = Starting"
    by (simp add: s1_def c_def)
  have r: "s2 = s\<lparr>connectionStatus := Disconnected,
               hub := hub s @ [closed],
               console := console s @ [Error ''Error connecting to SignalR hub:''],
               alerts := alerts s @ [''Failed to connect to SignalR hub. Please check the server URL and try again.'']\<rparr>"
    by (simp add: s2_def s1_def c_def closed_def settle_start_def connectToHub_resume_def
          set_phase_def alert_def console_error_def)
  have t: "connected_transports s2 = connected_transports s"
    using connected_transports_append [of s closed]
    by (simp add: r connected_transports_def closed_def)
  have f: "connectionStatus s2 = Disconnected"
    "alerts s2 = alerts s @ [''Failed to connect to SignalR hub. Please check the server URL and try again.'']"
    "connection s2 = connection s" "connectionRef s2 = connectionRef s"
    "isConnected s2 = isConnected s" "hub s2 = hub s @ [closed]"
    by (simp_all add: r)
  from a p f t show ?thesis
    unfolding s2_def c_def closed_def by blast
qed


lemma settle_start_failed:
  assumes "c < length (hub s)" and "phase (hub s ! c) = Starting"
  shows "connectionStatus (settle_start c (Inl e) s) = Disconnected
       \<and> alerts (settle_start c (Inl e) s)
           = alerts s @ [''Failed to connect to SignalR hub. Please check the server URL and try again.'']
       \<and> connection (settle_start c (Inl e) s) = connection s
       \<and> connectionRef (settle_start c (Inl e) s) = connectionRef s
       \<and> hub (settle_start c (Inl e) s) = (hub s)[c := (hub s ! c)\<lparr>phase := Closed\<rparr>]
       \<and> c \<notin> set (connected_transports (settle_start c (Inl e) s))"
  using assms
  by (simp add: settle_start_def connectToHub_resume_def set_phase_def alert_def console_error_def
        connected_transports_def)

text \<open>
  Claim C7. When the handshake of a connection attempt fails, the continuation of
  \<open>connectToHub\<close> sets the status to \<open>Disconnected\<close> and shows the alert. It
  stores no handle: the state variable and the ref are what they were before the
  attempt. It starts nothing: the hub connections are those of before and the failed
  one, now closed, so the failed connection is not among the connected ones. This holds
  for an attempt that fails right after \<open>connectToHub\<close>, and for the failure of any
  pending attempt in any state.
\<close>

theorem handshake_failure_disconnected:
  "(trim (userId s) \<noteq> [] \<longrightarrow>
      (\<exists>s1. connectToHub s = (Some (length (hub s)), s1)
           \<and> phase (hub s1 ! length (hub s)) = Starting
           \<and> connectionStatus (settle_start (length (hub s)) (Inl e) s1) = Disconnected
           \<and> alerts (settle_start (length (hub s)) (Inl e) s1)
               = alerts s @ [''Failed to connect to SignalR hub. Please check the server URL and try again.'']
           \<and> connection (settle_start (length (hub s)) (Inl e) s1) = connection s
           \<and> connectionRef (settle_start (length (hub s)) (Inl e) s1) = connectionRef s
           \<and> isConnected (settle_start (length (hub s)) (Inl e) s1) = isConnected s
           \<and> hub (settle_start (length (hub s)) (Inl e) s1)
               = hub s @ [\<lparr>url = serverUrl s @ ''?user_id='' @ userId s, phase = Closed\<rparr>]
           \<and> connected_transports (settle_start (length (hub s)) (Inl e) s1) = connected_transports s))
   \<and> (c < length (hub t) \<and> phase (hub t ! c) = Starting \<longrightarrow>
         connectionStatus (settle_start c (Inl e) t) = Disconnected
       \<and> alerts (settle_start c (Inl e) t)
           = alerts t @ [''Failed to connect to SignalR hub. Please check the server URL and try again.'']
       \<and> connection (settle_start c (Inl e) t) = connection t
       \<and> connectionRef (settle_start c (Inl e) t) = connectionRef t
       \<and> hub (settle_start c (Inl e) t) = (hub t)[c := (hub t ! c)\<lparr>phase := Closed\<rparr>]
       \<and> c \<notin> set (connected_transports (settle_start c (Inl e) t)))"
  using connect_then_failure [of s e] settle_start_failed [of c t e] by blast

theorem handshake_failure_disconnected_witness:
  "trim (userId (initial\<lparr>userId := ''u1''\<rparr>)) = ''u1''
   \<and> phase (hub (snd (connectToHub (initial\<lparr>userId := ''u1''\<rparr>))) ! 0) = Starting
   \<and> connectionStatus (settle_start 0 (Inl (HubError ''refused'')) (snd (connectToHub (initial\<lparr>userId := ''u1''\<rparr>)))) = Disconnected
   \<and> connectionRef (settle_start 0 (Inl (HubError ''refused'')) (snd (connectToHub (initial\<lparr>userId := ''u1''\<rparr>)))) = None
   \<and> alerts (settle_start 0 (Inl (HubError ''refused'')) (snd (connectToHub (initial\<lparr>userId := ''u1''\<rparr>))))
       = [''Failed to connect to SignalR hub. Please check the server URL and try again.'']
   \<and> connected_transports (settle_start 0 (Inl (HubError ''refused'')) (snd (connectToHub (initial\<lparr>userId := ''u1''\<rparr>)))) = []"
proof -
  let ?s = "initial\<lparr>userId := ''u1''\<rparr>"
  have h: "trim (userId ?s) \<noteq> []"
    by (simp add: trim_u1)
  have l: "length (hub ?s) = 0"
    and r: "connectionRef ?s = None"
    and a: "alerts ?s = []"
    and t: "connected_transports ?s = []"
    by (simp_all add: initial_def connected_transports_def)
  have g: "0 < length (hub (snd (connectToHub ?s))) \<and> phase (hub (snd (connectToHub ?s)) ! 0) = Starting"
    by (simp add: connectToHub_def trim_u1 build_def start_def set_phase_def initial_def)
  from handshake_failure_disconnected [of ?s "HubError ''refused''" 0 "snd (connectToHub ?s)"] h g
  show ?thesis
    unfolding l r a t by (auto simp add: trim_u1)
qed

lemma connected_page_eq:
  "connected_page =
     initial\<lparr>userId := ''u1'', connection := Some 0, isConnected := True,
             connectionStatus := Connected, connectionRef := Some 0,
             hub := [\<lparr>url = serverUrl initial @ ''?user_id=u1'', phase = Live\<rparr>],
             console := [Log ''Connected to SignalR hub'']\<rparr>"
  by (simp add: connected_page_def connectToHub_def trim_u1 build_def start_def set_phase_def
        settle_start_def connectToHub_resume_def console_log_def initial_def)

lemma stop_not_connected: "c \<notin> set (connected_transports (stop c s))"
  by (auto simp add: connected_transports_def stop_def set_phase_def)

lemma connected_transports_frame:
  "hub s' = hub s \<Longrightarrow> connected_transports s' = connected_transports s"
  by (simp add: connected_transports_def)

text \<open>
  Claim C8. With no handle in the ref, \<open>disconnectFromHub\<close> returns at once and
  leaves the page as it is. With a handle in the ref it calls \<^verbatim>\<open>stop()\<close> on that
  connection, and whether \<^verbatim>\<open>stop()\<close> succeeds or raises, the call ends with the
  status \<open>Disconnected\<close>, \<open>isConnected\<close> unset and both handles released, the
  connection being no longer connected. The \<^verbatim>\<open>finally\<close> block gives this from
  any state, whatever ran while \<^verbatim>\<open>stop()\<close> was pending.
\<close>

theorem disconnect_cleanup:
  "(connectionRef s = None \<longrightarrow>
      disconnectFromHub s = (None, s) \<and> disconnect_complete outcome s = s)
   \<and> (connectionRef t = Some c \<longrightarrow>
        disconnectFromHub t = (Some c, stop c t)
      \<and> connectionStatus (disconnect_complete outcome t) = Disconnected
      \<and> connection (disconnect_complete outcome t) = None
      \<and> connectionRef (disconnect_complete outcome t) = None
      \<and> \<not> isConnected (disconnect_complete outcome t)
      \<and> c \<notin> set (connected_transports (disconnect_complete outcome t)))
   \<and> connectionStatus (disconnectFromHub_resume outcome u) = Disconnected
   \<and> connection (disconnectFromHub_resume outcome u) = None
   \<and> connectionRef (disconnectFromHub_resume outcome u) = None
   \<and> \<not> isConnected (disconnectFromHub_resume outcome u)"
proof -
  have none: "connectionRef s = None \<longrightarrow>
      disconnectFromHub s = (None, s) \<and> disconnect_complete outcome s = s"
    by (simp add: disconnectFromHub_def disconnect_complete_def)
  have resume: "connectionStatus (disconnectFromHub_resume outcome v) = Disconnected
     \<and> connection (disconnectFromHub_resume outcome v) = None
     \<and> connectionRef (disconnectFromHub_resume outcome v) = None
     \<and> \<not> isConnected (disconnectFromHub_resume outcome v)
     \<and> hub (disconnectFromHub_resume outcome v) = hub v" for v
    by (cases outcome) (simp_all add: disconnectFromHub_resume_def console_log_def console_error_def)
  have some: "connectionRef t = Some c \<longrightarrow>
        disconnectFromHub t = (Some c, stop c t)
      \<and> connectionStatus (disconnect_complete outcome t) = Disconnected
      \<and> connection (disconnect_complete outcome t) = None
      \<and> connectionRef (disconnect_complete outcome t) = None
      \<and> \<not> isConnected (disconnect_complete outcome t)
      \<and> c \<notin> set (connected_transports (disconnect_complete outcome t))"
  proof
    assume a: "connectionRef t = Some c"
    then have d: "disconnectFromHub t = (Some c, stop c t)"
      and e: "disconnect_complete outcome t = disconnectFromHub_resume outcome (stop c t)"
      by (simp_all add: disconnectFromHub_def disconnect_complete_def)
    have "connected_transports (disconnectFromHub_resume outcome (stop c t))
            = connected_transports (stop c t)"
      by (rule connected_transports_frame) (simp add: resume)
    then have "c \<notin> set (connected_transports (disconnect_complete outcome t))"
      using stop_not_connected [of c t] by (simp add: e)
    with d resume [of "stop c t"] show "disconnectFromHub t = (Some c, stop c t)
      \<and> connectionStatus (disconnect_complete outcome t) = Disconnected
      \<and> connection (disconnect_complete outcome t) = None
      \<and> connectionRef (disconnect_complete outcome t) = None
      \<and> \<not> isConnected (disconnect_complete outcome t)
      \<and> c \<notin> set (connected_transports (disconnect_complete outcome t))"
      by (simp add: e)
  qed
  from none some resume [of u] show ?thesis by blast
qed

theorem disconnect_cleanup_witness:
  "connectionRef initial = None
   \<and> disconnect_complete (Inl (HubError ''close failed'')) initial = initial
   \<and> connectionRef connected_page = Some 0
   \<and> connectionStatus connected_page = Connected
   \<and> connectionStatus (disconnect_complete (Inl (HubError ''close failed'')) connected_page) = Disconnected
   \<and> connectionRef (disconnect_complete (Inl (HubError ''close failed'')) connected_page) = None
   \<and> connected_transports (disconnect_complete (Inl (HubError ''close failed'')) connected_page) = []"
proof -
  have h1: "connectionRef initial = None" by (simp add: initial_def)
  have h2: "connectionRef connected_page = Some 0" "connectionStatus connected_page = Connected"
    by (simp_all add: connected_page_eq)
  have t: "connected_transports (disconnect_complete (Inl (HubError ''close failed'')) connected_page) = []"
    by (simp add: disconnect_complete_def disconnectFromHub_def connected_page_eq stop_def set_phase_def
          disconnectFromHub_resume_def console_error_def connected_transports_def)
  from disconnect_cleanup [of initial "Inl (HubError ''close failed'')" connected_page 0] h1 h2 t
  show ?thesis by simp
qed

section \<open>Overlapping connections\<close>



















lemma set_phase_frame [simp]:
  "connectionStatus (set_phase c p s) = connectionStatus s"
  "isConnected (set_phase c p s) = isConnected s"
  by (simp_all add: set_phase_def)













end
